theory Spec2Isabelle
  imports Main
begin

section \<open>Strings\<close>

text \<open>
  Go strings are byte sequences; a \<^typ>\<open>string\<close> is a list of 8-bit characters.
  The three bytes the engine looks for by value:
\<close>

definition CR :: char where "CR = CHR 0x0D"
definition LF :: char where "LF = CHR 0x0A"
definition NUL :: char where "NUL = CHR 0x00"

text \<open>
  \<^verbatim>\<open>strings.Replace(s, old, new, -1)\<close>: every non-overlapping occurrence of \<open>old\<close>,
  found left to right, is replaced. Both call sites pass a non-empty \<open>old\<close>; Go's
  special case for an empty \<open>old\<close> (an insertion at every rune boundary) is not needed
  and the function returns \<open>s\<close> there.
\<close>

function strings_Replace :: "string \<Rightarrow> string \<Rightarrow> string \<Rightarrow> string" where
  "strings_Replace s old new =
     (if s = [] \<or> old = [] then s
      else if take (length old) s = old
        then new @ strings_Replace (drop (length old) s) old new
        else hd s # strings_Replace (tl s) old new)"
  by pat_completeness auto
termination
  by (relation "measure (\<lambda>(s, old, new). length s)") auto

declare strings_Replace.simps [simp del]

text \<open>\<^verbatim>\<open>strings.Trim(s, cutset)\<close> for a cutset of single-byte characters.\<close>

definition strings_Trim :: "string \<Rightarrow> string \<Rightarrow> string" where
  "strings_Trim s cutset =
     rev (dropWhile (\<lambda>c. c \<in> set cutset) (rev (dropWhile (\<lambda>c. c \<in> set cutset) s)))"

text \<open>\<^verbatim>\<open>strings.Contains(s, substr)\<close>.\<close>

fun strings_Contains :: "string \<Rightarrow> string \<Rightarrow> bool" where
  "strings_Contains [] substr = (substr = [])"
| "strings_Contains (c # cs) substr =
     (if take (length substr) (c # cs) = substr then True else strings_Contains cs substr)"

text \<open>\<^verbatim>\<open>strings.TrimPrefix(s, prefix)\<close>.\<close>

definition strings_TrimPrefix :: "string \<Rightarrow> string \<Rightarrow> string" where
  "strings_TrimPrefix s pre =
     (if take (length pre) s = pre then drop (length pre) s else s)"

text \<open>
  Line 44 of \<^verbatim>\<open>model.go\<close>, the expression assigned to \<^verbatim>\<open>document.Content\<close>:
  \<^verbatim>\<open>strings.Trim(strings.Replace(strings.Replace(c, "\r\n", "\n", -1), "\r", "\n", -1), "\n") + "\n"\<close>
\<close>

definition normalize_newlines :: "string \<Rightarrow> string" where
  "normalize_newlines content =
     strings_Trim (strings_Replace (strings_Replace content [CR, LF] [LF]) [CR] [LF]) [LF] @ [LF]"

text \<open>
  The normalizer as the specification words it, for comparison with the code: one pass
  that turns each \<open>CR LF\<close> pair and each remaining \<open>CR\<close> into one \<open>LF\<close>, then the
  removal of the newlines at both ends.
\<close>

fun convert_line_endings :: "string \<Rightarrow> string" where
  "convert_line_endings [] = []"
| "convert_line_endings [c] = [if c = CR then LF else c]"
| "convert_line_endings (c # d # cs) =
     (if c = CR \<and> d = LF then LF # convert_line_endings cs
      else if c = CR then LF # convert_line_endings (d # cs)
      else c # convert_line_endings (d # cs))"

definition strip_newlines :: "string \<Rightarrow> string" where
  "strip_newlines s = rev (dropWhile (\<lambda>c. c = LF) (rev (dropWhile (\<lambda>c. c = LF) s)))"


section \<open>The identifier generator\<close>

text \<open>
  \<^verbatim>\<open>characters = strings.Split("abcdefghijklmnopqrstuvwxyz0123456789", "")\<close>: the 36
  one-character strings.
\<close>

definition alphabet :: string where
  "alphabet = ''abcdefghijklmnopqrstuvwxyz0123456789''"

definition characters :: "string list" where
  "characters = map (\<lambda>c. [c]) alphabet"

text \<open>
  The randomness source. The \<open>k\<close>-th call of \<^verbatim>\<open>rand.Int(rand.Reader, max)\<close> in a run
  either fails with a message or delivers a number, which \<^verbatim>\<open>rand.Int\<close> guarantees to
  lie in \<open>[0, max)\<close>: the source is a function from the call's position to its outcome,
  a delivered number is reduced modulo \<open>max\<close>, and the position is the state.
  \<^verbatim>\<open>rand.Int\<close> panics when \<open>max \<le> 0\<close>.
\<close>

datatype rand_result = RandErr string | RandVal nat

fun is_RandVal :: "rand_result \<Rightarrow> bool" where
  "is_RandVal (RandVal v) = True"
| "is_RandVal (RandErr e) = False"

datatype panic =
    Panic_rand "string option"    \<comment> \<open>\<^verbatim>\<open>panic(err)\<close> of \<^verbatim>\<open>randomWord\<close>\<close>
  | Panic_rand_Int_argument       \<comment> \<open>\<^verbatim>\<open>rand.Int\<close> called with \<open>max \<le> 0\<close>\<close>

text \<open>
  \<^verbatim>\<open>randomWord(array, try, err)\<close>. The result is the panic or the returned word,
  with the position of the source after the call. (\<^verbatim>\<open>Log.Criticalf\<close> before the
  panic has no effect on the result.)
\<close>

function randomWord ::
  "(nat \<Rightarrow> rand_result) \<Rightarrow> string list \<Rightarrow> int \<Rightarrow> string option \<Rightarrow> nat \<Rightarrow> (panic + string) \<times> nat"
where
  "randomWord src array try err pos =
     (if try > 10 then (Inl (Panic_rand err), pos)
      else if length array = 0 then (Inl Panic_rand_Int_argument, pos)
      else (case src pos of
              RandErr e \<Rightarrow> randomWord src array (try + 1) (Some e) (pos + 1)
            | RandVal v \<Rightarrow> (Inr (array ! (v mod length array)), pos + 1)))"
  by pat_completeness auto
termination
  by (relation "measure (\<lambda>(src, array, try, err, pos). nat (11 - try))") auto

declare randomWord.simps [simp del]

text \<open>
  \<^verbatim>\<open>GenerateName()\<close>: the \<^verbatim>\<open>for i := 0; i < 6; i++\<close> loop with its accumulator
  \<^verbatim>\<open>text\<close>, then \<^verbatim>\<open>strings.TrimPrefix(text, "-")\<close>. The package variable
  \<^verbatim>\<open>words\<close> is the parameter \<open>words\<close>.
\<close>

function GenerateName_loop ::
  "(nat \<Rightarrow> rand_result) \<Rightarrow> string list \<Rightarrow> int \<Rightarrow> string \<Rightarrow> nat \<Rightarrow> (panic + string) \<times> nat"
where
  "GenerateName_loop src words i text pos =
     (if i < 6 then
        (case (if i < 2 \<and> length words > 0
               then randomWord src words 0 None pos
               else randomWord src characters 0 None pos) of
           (Inl p, pos') \<Rightarrow> (Inl p, pos')
         | (Inr word, pos') \<Rightarrow>
             GenerateName_loop src words (i + 1)
               (if i < 3 \<and> length words > 0 then text @ ''-'' @ word else text @ word) pos')
      else (Inr text, pos))"
  by pat_completeness auto
termination
  by (relation "measure (\<lambda>(src, words, i, text, pos). nat (6 - i))") auto

declare GenerateName_loop.simps [simp del]

definition GenerateName ::
  "(nat \<Rightarrow> rand_result) \<Rightarrow> string list \<Rightarrow> nat \<Rightarrow> (panic + string) \<times> nat"
where
  "GenerateName src words pos =
     (case GenerateName_loop src words 0 [] pos of
        (Inl p, pos') \<Rightarrow> (Inl p, pos')
      | (Inr text, pos') \<Rightarrow> (Inr (strings_TrimPrefix text ''-''), pos'))"

text \<open>The successful draws among the calls at positions \<open>pos, \<dots>, pos' - 1\<close>.\<close>

definition draws :: "(nat \<Rightarrow> rand_result) \<Rightarrow> nat \<Rightarrow> nat \<Rightarrow> nat" where
  "draws src pos pos' = length (filter is_RandVal (map src [pos..<pos']))"


section \<open>Time\<close>

text \<open>
  A \<^verbatim>\<open>time.Time\<close> is the instant it denotes, in nanoseconds since the Unix epoch
  (the location and the monotonic reading play no part in the engine: every time is
  formatted in UTC and rounded first). \<^verbatim>\<open>time.Time{}\<close> is January 1 of year 1,
  00:00:00 UTC.
\<close>

type_synonym Time = int

definition Time_zero :: Time where
  "Time_zero = - 62135596800 * 1000000000"

definition time_Unix :: "int \<Rightarrow> int \<Rightarrow> Time" where
  "time_Unix sec nsec = sec * 1000000000 + nsec"

definition Before :: "Time \<Rightarrow> Time \<Rightarrow> bool" where
  "Before t u = (t < u)"

text \<open>
  \<^verbatim>\<open>t.Round(time.Second)\<close>: to the nearest multiple of a second since the zero
  time, halfway values rounding up.
\<close>

definition Round_Second :: "Time \<Rightarrow> Time" where
  "Round_Second t =
     (let r = (t - Time_zero) mod 1000000000
      in if r + r < 1000000000 then t - r else t + (1000000000 - r))"


section \<open>Documents, the database and the collaborators\<close>

record Document =
  ID :: string
  Content :: string
  Syntax :: string
  Upload :: Time
  Expiration :: Time
  Views :: int
  Custom :: string

text \<open>\<^verbatim>\<open>Document{}\<close>\<close>

definition Document_zero :: Document where
  "Document_zero =
     \<lparr>ID = [], Content = [], Syntax = [], Upload = Time_zero, Expiration = Time_zero,
      Views = 0, Custom = []\<rparr>"

text \<open>
  An \<^verbatim>\<open>error\<close> value, by the call that made it, with its message
  (\<^verbatim>\<open>err.Error()\<close>).
\<close>

datatype error =
    NameError string     \<comment> \<open>returned by \<^verbatim>\<open>GenerateSafeName\<close>\<close>
  | DbError string       \<comment> \<open>returned by \<^verbatim>\<open>database/sql\<close>\<close>
  | KeyError string      \<comment> \<open>returned by \<^verbatim>\<open>scrypt.Key\<close>\<close>
  | AESError string      \<comment> \<open>returned by \<^verbatim>\<open>encrypt\<close> or \<^verbatim>\<open>decrypt\<close>\<close>
  | ParseError string    \<comment> \<open>returned by \<^verbatim>\<open>time.Parse\<close>\<close>
  | ErrorsNew string     \<comment> \<open>made by \<^verbatim>\<open>errors.New\<close>\<close>

fun Error :: "error \<Rightarrow> string" where
  "Error (NameError m) = m"
| "Error (DbError m) = m"
| "Error (KeyError m) = m"
| "Error (AESError m) = m"
| "Error (ParseError m) = m"
| "Error (ErrorsNew m) = m"

text \<open>
  A row of the table \<^verbatim>\<open>documents\<close>, with the columns the two statements name.
  \<^verbatim>\<open>upload\<close> and \<^verbatim>\<open>expiration\<close> are read into \<^verbatim>\<open>sql.NullString\<close>: \<open>None\<close> is
  SQL's NULL.
\<close>

record row =
  row_id :: string
  row_content :: string
  row_custom :: string
  row_syntax :: string
  row_upload :: "string option"
  row_expiration :: "string option"
  row_views :: int

text \<open>
  The four statements the engine sends, each with the value bound to its \<^verbatim>\<open>id\<close>
  placeholder. The schema is not part of the sources, so the table is a list of rows:
  an insert appends, a query reads the first matching row, an update or a delete
  affects every matching row.
\<close>

datatype db_op =
    Insert row
  | Select string
  | Update_views string
  | Delete string

fun op_key :: "db_op \<Rightarrow> string" where
  "op_key (Insert r) = row_id r"
| "op_key (Select k) = k"
| "op_key (Update_views k) = k"
| "op_key (Delete k) = k"

fun apply_op :: "db_op \<Rightarrow> row list \<Rightarrow> row list" where
  "apply_op (Insert r) t = t @ [r]"
| "apply_op (Select k) t = t"
| "apply_op (Update_views k) t =
     map (\<lambda>r. if row_id r = k then r\<lparr>row_views := row_views r + 1\<rparr> else r) t"
| "apply_op (Delete k) t = filter (\<lambda>r. row_id r \<noteq> k) t"

datatype level = Warningf | Errorf | Criticalf

text \<open>What a run does besides returning: the calls it makes, in order.\<close>

datatype event =
    Called_GenerateSafeName
  | Called_Highlight string string
  | Called_EscapeHTML string
  | Called_FilterSpam string
  | Called_StripHTML string
  | Called_scrypt string string
  | Called_encrypt string string
  | Called_decrypt string string
  | Db db_op                       \<comment> \<open>a statement run by the caller\<close>
  | Go_Db db_op                    \<comment> \<open>a statement started with \<^verbatim>\<open>go\<close>\<close>
  | Log level string

fun event_db_op :: "event \<Rightarrow> db_op option" where
  "event_db_op (Db q) = Some q"
| "event_db_op (Go_Db q) = Some q"
| "event_db_op _ = None"

text \<open>The statements of a trace, in the order they were issued.\<close>

definition db_ops :: "event list \<Rightarrow> db_op list" where
  "db_ops tr = List.map_filter event_db_op tr"

text \<open>
  The collaborators of \<^verbatim>\<open>Store\<close> and \<^verbatim>\<open>Request\<close> are the fields of one record of
  parameters. The library functions among them: \<open>Now\<close> is \<^verbatim>\<open>time.Now()\<close>,
  \<open>time_Format\<close> is \<^verbatim>\<open>t.UTC().Format("2006-01-02 15:04:05")\<close>, \<open>time_Parse\<close> is
  \<^verbatim>\<open>time.Parse("2006-01-02 15:04:05", s)\<close> (the error message or the time),
  \<open>sha256_hex\<close> is \<^verbatim>\<open>hex.EncodeToString(sha256.Sum256(s))\<close>, \<open>scrypt_Key\<close> is
  \<^verbatim>\<open>scrypt.Key(password, salt, 16384, 8, 1, 24)\<close>. \<open>db_fault\<close> says which
  statements the database fails, and with which message.
\<close>

text \<open>
  Modelled from the spec: the files of \<^verbatim>\<open>encrypt\<close>, \<^verbatim>\<open>decrypt\<close>, \<^verbatim>\<open>Highlight\<close>,
  \<^verbatim>\<open>EscapeHTML\<close>, \<^verbatim>\<open>StripHTML\<close>, \<^verbatim>\<open>FilterSpam\<close> and \<^verbatim>\<open>GenerateSafeName\<close> are
  missing from the sources, so these functions are parameters too, with the interfaces
  the specification gives them in its sections 4.1, 4.3 and 6:
  \<open>highlight(content, syntaxHint) -> (renderedHTML, error)\<close>,
  \<open>escapeHTML(content) -> renderedHTML\<close>, \<open>stripHTML(renderedHTML) -> plainText\<close>,
  \<open>check(doc, renderedContent) -> error-or-nil\<close> (a check: it reads the document and
  the rendered content and changes neither), authenticated encryption and decryption
  of a text under a key, failing with a message, and a name generator that checks the
  store for existence (it reads the table, writes nothing, and may fail).
\<close>

record env =
  Now :: Time
  time_Format :: "Time \<Rightarrow> string"
  time_Parse :: "string \<Rightarrow> string + Time"
  sha256_hex :: "string \<Rightarrow> string"
  scrypt_Key :: "string \<Rightarrow> string \<Rightarrow> string + string"
  encrypt :: "string \<Rightarrow> string \<Rightarrow> string + string"
  decrypt :: "string \<Rightarrow> string \<Rightarrow> string + string"
  Highlight :: "string \<Rightarrow> string \<Rightarrow> string \<times> string option"
  EscapeHTML :: "string \<Rightarrow> string"
  StripHTML :: "string \<Rightarrow> string"
  FilterSpam :: "Document \<Rightarrow> string \<Rightarrow> string option"
  GenerateSafeName :: "row list \<Rightarrow> string + string"
  db_fault :: "db_op \<Rightarrow> string option"

text \<open>
  The state: the table, the trace of calls so far, and the statements started with
  \<^verbatim>\<open>go\<close> that have not run yet.
\<close>

record state =
  table :: "row list"
  trace :: "event list"
  pending :: "db_op list"

definition emit :: "event \<Rightarrow> state \<Rightarrow> state" where
  "emit e st = st\<lparr>trace := trace st @ [e]\<rparr>"

text \<open>\<^verbatim>\<open>db.Exec(statement, key)\<close>: a failed statement changes nothing.\<close>

definition db_Exec :: "env \<Rightarrow> db_op \<Rightarrow> state \<Rightarrow> error option \<times> state" where
  "db_Exec e q st =
     (case db_fault e q of
        Some m \<Rightarrow> (Some (DbError m), emit (Db q) st)
      | None \<Rightarrow> (None, emit (Db q) (st\<lparr>table := apply_op q (table st)\<rparr>)))"

text \<open>
  \<^verbatim>\<open>go db.Exec(statement, key)\<close>: the statement is issued and runs at some later
  moment; nobody reads its result.
\<close>

definition go_db_Exec :: "db_op \<Rightarrow> state \<Rightarrow> state" where
  "go_db_Exec q st = emit (Go_Db q) (st\<lparr>pending := pending st @ [q]\<rparr>)"

fun run_ops :: "env \<Rightarrow> db_op list \<Rightarrow> row list \<Rightarrow> row list" where
  "run_ops e [] t = t"
| "run_ops e (q # qs) t =
     run_ops e qs (case db_fault e q of Some m \<Rightarrow> t | None \<Rightarrow> apply_op q t)"

text \<open>The state once every statement started with \<^verbatim>\<open>go\<close> has run.\<close>

definition run_pending :: "env \<Rightarrow> state \<Rightarrow> state" where
  "run_pending e st = st\<lparr>table := run_ops e (pending st) (table st), pending := []\<rparr>"

definition no_rows :: string where
  "no_rows = ''sql: no rows in result set''"

text \<open>\<^verbatim>\<open>db.QueryRow("SELECT ... WHERE id = ?", key).Scan(...)\<close>\<close>

definition db_QueryRow :: "env \<Rightarrow> string \<Rightarrow> state \<Rightarrow> (error + row) \<times> state" where
  "db_QueryRow e k st =
     (case db_fault e (Select k) of
        Some m \<Rightarrow> (Inl (DbError m), emit (Db (Select k)) st)
      | None \<Rightarrow>
          (case find (\<lambda>r. row_id r = k) (table st) of
             None \<Rightarrow> (Inl (DbError no_rows), emit (Db (Select k)) st)
           | Some r \<Rightarrow> (Inr r, emit (Db (Select k)) st)))"


section \<open>Store\<close>

text \<open>
  \<^verbatim>\<open>Store(document *Document) error\<close>. The document is changed in place, so the
  result is the error (or \<open>None\<close> for \<^verbatim>\<open>nil\<close>), the document as the call leaves it,
  and the state.
\<close>

definition Store :: "env \<Rightarrow> Document \<Rightarrow> state \<Rightarrow> error option \<times> Document \<times> state" where
  "Store e document st0 =
     (let st1 = emit Called_GenerateSafeName st0 in
      case GenerateSafeName e (table st1) of
        Inl m \<Rightarrow> (Some (NameError m), document, st1)
      | Inr name \<Rightarrow>
          (let d1 = document\<lparr>ID := name\<rparr>;
               d2 = d1\<lparr>Upload := Round_Second (Now e)\<rparr>;
               d3 = d2\<lparr>Expiration := Round_Second (Expiration d2)\<rparr>;
               d4 = d3\<lparr>Content := normalize_newlines (Content d3)\<rparr>
           in if strings_Contains (Content d4) [NUL]
              then (Some (ErrorsNew ''file contains 0x00 bytes''), d4, st1)
              else
                (let (contentHighlighted, d5, st2) =
                       (if Custom d4 = [] then
                          (let d = (if Syntax d4 = ''none'' then d4\<lparr>Syntax := []\<rparr> else d4);
                               (h, herr) = Highlight e (Content d) (Syntax d);
                               s = emit (Called_Highlight (Content d) (Syntax d)) st1
                           in (h, d, case herr of Some m \<Rightarrow> emit (Log Warningf m) s | None \<Rightarrow> s))
                        else
                          (EscapeHTML e (Content d4), d4, emit (Called_EscapeHTML (Content d4)) st1));
                     st3 = emit (Called_FilterSpam contentHighlighted) st2
                 in case FilterSpam e d5 contentHighlighted of
                      Some m \<Rightarrow> (Some (ErrorsNew (''spam: '' @ m)), d5, emit (Log Warningf m) st3)
                    | None \<Rightarrow>
                        (let expiration =
                               (if Expiration d5 \<noteq> Time_zero
                                then Some (time_Format e (Expiration d5)) else None);
                             salt = time_Format e (Upload d5);
                             st4 = emit (Called_scrypt (ID d5) salt) st3;
                             (key, st5) =
                               (case scrypt_Key e (ID d5) salt of
                                  Inl m \<Rightarrow> ([], emit (Log Errorf m) st4)
                                | Inr k \<Rightarrow> (k, st4));
                             st6 = emit (Called_encrypt contentHighlighted key) st5
                         in case encrypt e contentHighlighted key of
                              Inl m \<Rightarrow> (Some (AESError m), d5, emit (Log Errorf m) st6)
                            | Inr data \<Rightarrow>
                                (let databaseID = sha256_hex e (ID d5);
                                     (err, st7) =
                                       db_Exec e
                                         (Insert \<lparr>row_id = databaseID, row_content = data,
                                                  row_custom = Custom d5, row_syntax = Syntax d5,
                                                  row_upload = Some (time_Format e (Upload d5)),
                                                  row_expiration = expiration,
                                                  row_views = Views d5\<rparr>) st6
                                 in (err, d5, st7))))))"


section \<open>Request\<close>

definition auth_failed :: string where
  "auth_failed = ''cipher: message authentication failed''"

text \<open>
  Line 122, \<^verbatim>\<open>doc.Upload, _ = time.Parse("2006-01-02 15:04:05", upload.String)\<close>: a
  NULL column reads as the empty string, the error is dropped, and on a parse failure
  \<^verbatim>\<open>time.Parse\<close> returns the zero time.
\<close>

definition parsed_upload :: "env \<Rightarrow> string option \<Rightarrow> Time" where
  "parsed_upload e upload =
     (case time_Parse e (case upload of None \<Rightarrow> [] | Some s \<Rightarrow> s) of
        Inl m \<Rightarrow> Time_zero
      | Inr t \<Rightarrow> t)"

text \<open>
  Lines 138 to 161 of \<^verbatim>\<open>Request\<close>: the expiration policy and the raw form.
  \<open>expiration\<close> is the column as fetched (\<open>None\<close> when \<^verbatim>\<open>expiration.Valid\<close> is
  false). On a parse failure \<^verbatim>\<open>time.Parse\<close> returns the zero time with its error.
\<close>

definition Request_expiration ::
  "env \<Rightarrow> string \<Rightarrow> bool \<Rightarrow> string option \<Rightarrow> Document \<Rightarrow> state \<Rightarrow> (Document \<times> error option) \<times> state"
where
  "Request_expiration e id' raw expiration doc st =
     (let finish = (\<lambda>d s.
            if raw
            then ((d\<lparr>Content := StripHTML e (Content d)\<rparr>, None),
                  emit (Called_StripHTML (Content d)) s)
            else ((d, None), s))
      in case expiration of
           None \<Rightarrow> finish doc st
         | Some str \<Rightarrow>
             (let (t, err) =
                    (case time_Parse e str of
                       Inl m \<Rightarrow> (Time_zero, Some (ParseError m))
                     | Inr t \<Rightarrow> (t, None));
                  doc1 = doc\<lparr>Expiration := t\<rparr>
              in if Before (Expiration doc1) (time_Unix 0 1) then
                   (if Views doc1 > 0 then
                      (let (err', st1) = db_Exec e (Delete id') st
                       in finish doc1
                            (case err' of
                               Some x \<Rightarrow> emit (Log Errorf (Error x)) st1
                             | None \<Rightarrow> st1))
                    else finish doc1 st)
                 else
                   (case err of
                      Some x \<Rightarrow> ((Document_zero, Some x), st)
                    | None \<Rightarrow>
                        if Before (Expiration doc1) (Now e)
                        then ((Document_zero, Some (ErrorsNew ''the document has expired'')), st)
                        else finish doc1 st)))"

text \<open>\<^verbatim>\<open>Request(id string, raw bool) (Document, error)\<close> (the parameter \<open>id\<close> is \<open>id'\<close> here)\<close>

definition Request ::
  "env \<Rightarrow> string \<Rightarrow> bool \<Rightarrow> state \<Rightarrow> (Document \<times> error option) \<times> state"
where
  "Request e id' raw st0 =
     (let doc0 = Document_zero\<lparr>ID := id'\<rparr>;
          databaseID = sha256_hex e id';
          (res, st1) = db_QueryRow e databaseID st0
      in case res of
           Inl err \<Rightarrow>
             ((Document_zero, Some err),
              if Error err \<noteq> no_rows then emit (Log Warningf (Error err)) st1 else st1)
         | Inr r \<Rightarrow>
             (let doc1 = doc0\<lparr>Content := row_content r, Custom := row_custom r,
                              Syntax := row_syntax r\<rparr>;
                  st2 = go_db_Exec (Update_views databaseID) st1;
                  doc2 = doc1\<lparr>Views := row_views r\<rparr>;
                  doc3 = doc2\<lparr>Upload := parsed_upload e (row_upload r)\<rparr>;
                  salt = time_Format e (Upload doc3);
                  st3 = emit (Called_scrypt id' salt) st2
              in case scrypt_Key e id' salt of
                   Inl m \<Rightarrow> ((Document_zero, Some (KeyError m)), emit (Log Errorf m) st3)
                 | Inr key \<Rightarrow>
                     (let st4 = emit (Called_decrypt (Content doc3) key) st3
                      in case decrypt e (Content doc3) key of
                           Inl m \<Rightarrow>
                             if \<not> (m = auth_failed \<and> \<not> strings_Contains (Content doc3) [NUL])
                             then ((Document_zero, Some (AESError m)), emit (Log Errorf m) st4)
                             else Request_expiration e id' raw (row_expiration r) doc3 st4
                         | Inr data \<Rightarrow>
                             Request_expiration e id' raw (row_expiration r)
                               (doc3\<lparr>Content := data\<rparr>) st4)))"


section \<open>Concrete inputs\<close>

text \<open>
  An environment for running \<^const>\<open>Store\<close> and \<^const>\<open>Request\<close> on concrete inputs.
  Each library function and collaborator is replaced by a small stand-in with the same
  interface: the clock reads 2001-01-01 00:00:00 UTC, the time format and parser know
  four instants, the digest and the key derivation are injective string functions, the
  cipher prefixes the plaintext with the key and authenticates by comparing that
  prefix, the renderers are the identity, the spam filter accepts, the name generator
  returns one name and the database never fails.
\<close>

definition demo_Format :: "Time \<Rightarrow> string" where
  "demo_Format t =
     (if t = time_Unix 0 0 then ''1970-01-01 00:00:00''
      else if t = time_Unix 946684800 0 then ''2000-01-01 00:00:00''
      else if t = time_Unix 959817600 0 then ''2000-06-01 00:00:00''
      else if t = time_Unix 978307200 0 then ''2001-01-01 00:00:00''
      else ''0001-01-01 00:00:00'')"

definition demo_Parse :: "string \<Rightarrow> string + Time" where
  "demo_Parse s =
     (if s = ''1970-01-01 00:00:00'' then Inr (time_Unix 0 0)
      else if s = ''2000-01-01 00:00:00'' then Inr (time_Unix 946684800 0)
      else if s = ''2000-06-01 00:00:00'' then Inr (time_Unix 959817600 0)
      else if s = ''2001-01-01 00:00:00'' then Inr (time_Unix 978307200 0)
      else Inl ''parsing time: cannot parse'')"

definition demo_encrypt :: "string \<Rightarrow> string \<Rightarrow> string + string" where
  "demo_encrypt plaintext key = Inr (key @ '':'' @ plaintext)"

definition demo_decrypt :: "string \<Rightarrow> string \<Rightarrow> string + string" where
  "demo_decrypt ciphertext key =
     (if take (length key + 1) ciphertext = key @ '':''
      then Inr (drop (length key + 1) ciphertext)
      else Inl auth_failed)"

definition demo_env :: env where
  "demo_env =
     \<lparr>Now = time_Unix 978307200 0,
      time_Format = demo_Format,
      time_Parse = demo_Parse,
      sha256_hex = (\<lambda>s. ''sha256-'' @ s),
      scrypt_Key = (\<lambda>password salt. Inr (password @ ''/'' @ salt)),
      encrypt = demo_encrypt,
      decrypt = demo_decrypt,
      Highlight = (\<lambda>content syntax. (content, None)),
      EscapeHTML = (\<lambda>content. content),
      StripHTML = (\<lambda>content. content),
      FilterSpam = (\<lambda>document content. None),
      GenerateSafeName = (\<lambda>t. Inr ''abc''),
      db_fault = (\<lambda>q. None)\<rparr>"

text \<open>
  The row \<^const>\<open>Store\<close> writes in that environment for the content \<open>hello\<close> with the
  expiration set to the Unix epoch (a volatile document), and a state holding it.
\<close>

definition demo_row :: row where
  "demo_row =
     \<lparr>row_id = ''sha256-abc'',
      row_content = ''abc/2001-01-01 00:00:00:hello'' @ [LF],
      row_custom = [], row_syntax = [],
      row_upload = Some ''2001-01-01 00:00:00'',
      row_expiration = Some ''1970-01-01 00:00:00'',
      row_views = 0\<rparr>"

definition demo_state :: "row \<Rightarrow> state" where
  "demo_state r = \<lparr>table = [r], trace = [], pending = []\<rparr>"

definition empty_state :: state where
  "empty_state = \<lparr>table = [], trace = [], pending = []\<rparr>"

definition demo_document :: Document where
  "demo_document =
     \<lparr>ID = [], Content = ''hello'', Syntax = [], Upload = Time_zero,
      Expiration = time_Unix 0 0, Views = 0, Custom = []\<rparr>"

text \<open>A randomness source that never fails: the \<open>k\<close>-th call delivers \<open>k\<close>.\<close>

definition demo_src :: "nat \<Rightarrow> rand_result" where
  "demo_src k = RandVal k"

text \<open>A source whose first two calls fail.\<close>

definition flaky_src :: "nat \<Rightarrow> rand_result" where
  "flaky_src k = (if k < 2 then RandErr ''EAGAIN'' else RandVal k)"

text \<open>A source that always fails.\<close>

definition broken_src :: "nat \<Rightarrow> rand_result" where
  "broken_src k = RandErr ''EIO''"


section \<open>The content normalizer\<close>

lemma CR_neq_LF [simp]: "CR \<noteq> LF" "LF \<noteq> CR"
  by (simp_all add: CR_def LF_def)

lemma strings_Contains_single: "strings_Contains s [c] = (c \<in> set s)"
  by (induction s) auto

lemma strings_Replace_Nil [simp]: "strings_Replace [] old new = []"
  by (simp add: strings_Replace.simps)

lemma strings_Replace_CRLF_Cons:
  "strings_Replace (c # cs) [CR, LF] [LF] =
     (if c = CR \<and> cs \<noteq> [] \<and> hd cs = LF then LF # strings_Replace (tl cs) [CR, LF] [LF]
      else c # strings_Replace cs [CR, LF] [LF])"
  by (cases cs) (subst strings_Replace.simps, simp)+

lemma strings_Replace_CR_Cons:
  "strings_Replace (c # cs) [CR] [LF] =
     (if c = CR then LF # strings_Replace cs [CR] [LF] else c # strings_Replace cs [CR] [LF])"
  by (subst strings_Replace.simps) simp

text \<open>The two passes of the code do what the one pass of the specification does.\<close>

lemma Replace_twice_convert:
  "strings_Replace (strings_Replace s [CR, LF] [LF]) [CR] [LF] = convert_line_endings s"
  by (induction s rule: convert_line_endings.induct)
     (auto simp: strings_Replace_CRLF_Cons strings_Replace_CR_Cons)

lemma convert_line_endings_no_CR: "CR \<notin> set (convert_line_endings s)"
  by (induction s rule: convert_line_endings.induct) auto

lemma strings_Trim_LF: "strings_Trim s [LF] = strip_newlines s"
  by (simp add: strings_Trim_def strip_newlines_def)

lemma set_strip_newlines: "set (strip_newlines s) \<subseteq> set s"
proof
  fix x assume "x \<in> set (strip_newlines s)"
  then have "x \<in> set (dropWhile (\<lambda>c. c = LF) (rev (dropWhile (\<lambda>c. c = LF) s)))"
    by (simp add: strip_newlines_def)
  then have "x \<in> set (rev (dropWhile (\<lambda>c. c = LF) s))"
    by (rule set_dropWhileD)
  then have "x \<in> set (dropWhile (\<lambda>c. c = LF) s)" by simp
  then show "x \<in> set s" by (rule set_dropWhileD)
qed

lemma last_dropWhile_nonempty: "dropWhile P xs \<noteq> [] \<Longrightarrow> last (dropWhile P xs) = last xs"
proof -
  assume ne: "dropWhile P xs \<noteq> []"
  have "last xs = last (takeWhile P xs @ dropWhile P xs)" by simp
  also have "\<dots> = last (dropWhile P xs)" using ne by (rule last_appendR)
  finally show ?thesis by simp
qed

lemma strip_newlines_last: "strip_newlines s \<noteq> [] \<Longrightarrow> last (strip_newlines s) \<noteq> LF"
proof -
  assume ne: "strip_newlines s \<noteq> []"
  let ?b = "dropWhile (\<lambda>c. c = LF) (rev (dropWhile (\<lambda>c. c = LF) s))"
  from ne have b: "?b \<noteq> []" by (simp add: strip_newlines_def)
  then have "hd ?b \<noteq> LF" using hd_dropWhile [of "\<lambda>c. c = LF"] by blast
  moreover have "last (strip_newlines s) = hd ?b"
    using b by (simp add: strip_newlines_def last_rev)
  ultimately show ?thesis by simp
qed

lemma strip_newlines_hd: "strip_newlines s \<noteq> [] \<Longrightarrow> hd (strip_newlines s) \<noteq> LF"
proof -
  assume ne: "strip_newlines s \<noteq> []"
  let ?a = "dropWhile (\<lambda>c. c = LF) s"
  let ?b = "dropWhile (\<lambda>c. c = LF) (rev ?a)"
  from ne have b: "?b \<noteq> []" by (simp add: strip_newlines_def)
  have a: "?a \<noteq> []"
  proof
    assume "?a = []"
    then have "?b = []" by (simp only: rev.simps dropWhile.simps)
    with b show False by blast
  qed
  have "hd (strip_newlines s) = last ?b"
    using b by (simp add: strip_newlines_def hd_rev)
  also have "\<dots> = last (rev ?a)" using b by (rule last_dropWhile_nonempty)
  also have "\<dots> = hd ?a" using a by (simp add: last_rev)
  finally have "hd (strip_newlines s) = hd ?a" .
  moreover have "hd ?a \<noteq> LF" using a hd_dropWhile [of "\<lambda>c. c = LF" s] by blast
  ultimately show ?thesis by simp
qed

lemma normalize_newlines_eq:
  "normalize_newlines s = strip_newlines (convert_line_endings s) @ [LF]"
  by (simp add: normalize_newlines_def strings_Trim_LF Replace_twice_convert)

text \<open>
  Claim C8. The content \<^verbatim>\<open>Store\<close> keeps is the content with every \<open>CR LF\<close> and every
  lone \<open>CR\<close> turned into \<open>LF\<close>, the newlines at both ends removed, and one \<open>LF\<close>
  appended: no \<open>CR\<close> is left, and what stands before the final \<open>LF\<close> neither starts nor
  ends with a newline. The input \<open>line1 CR LF line2 CR\<close> becomes \<open>line1 LF line2 LF\<close>.
\<close>

theorem normalize_newlines_spec:
  "normalize_newlines s = strip_newlines (convert_line_endings s) @ [LF]
   \<and> CR \<notin> set (normalize_newlines s)
   \<and> (strip_newlines (convert_line_endings s) = []
        \<or> (hd (normalize_newlines s) \<noteq> LF
            \<and> last (butlast (normalize_newlines s)) \<noteq> LF))
   \<and> normalize_newlines (''line1'' @ [CR, LF] @ ''line2'' @ [CR]) =
       ''line1'' @ [LF] @ ''line2'' @ [LF]"
proof -
  let ?t = "strip_newlines (convert_line_endings s)"
  have eq: "normalize_newlines s = ?t @ [LF]" by (rule normalize_newlines_eq)
  have "CR \<notin> set ?t"
    using set_strip_newlines [of "convert_line_endings s"] convert_line_endings_no_CR [of s]
    by blast
  then have noCR: "CR \<notin> set (normalize_newlines s)" by (simp add: eq)
  have ends: "?t = [] \<or> (hd (normalize_newlines s) \<noteq> LF
                \<and> last (butlast (normalize_newlines s)) \<noteq> LF)"
  proof (cases "?t = []")
    case True then show ?thesis by simp
  next
    case False
    then show ?thesis
      using strip_newlines_hd [of "convert_line_endings s"]
        strip_newlines_last [of "convert_line_endings s"]
      by (simp add: eq)
  qed
  have ex: "normalize_newlines (''line1'' @ [CR, LF] @ ''line2'' @ [CR]) =
              ''line1'' @ [LF] @ ''line2'' @ [LF]"
    unfolding normalize_newlines_eq by (simp add: strip_newlines_def CR_def LF_def)
  from eq noCR ends ex show ?thesis by blast
qed


section \<open>Properties of the identifier generator\<close>

lemma randomWord_result:
  "randomWord src array try err pos = (r, pos') \<Longrightarrow>
     pos \<le> pos' \<and> int pos' - int pos \<le> max 0 (11 - try)
     \<and> (\<forall>w. r = Inr w \<longrightarrow>
            w \<in> set array \<and> pos < pos' \<and> is_RandVal (src (pos' - 1))
            \<and> (\<forall>k. pos \<le> k \<and> k < pos' - 1 \<longrightarrow> \<not> is_RandVal (src k)))"
proof (induction src array "try" err pos arbitrary: r pos' rule: randomWord.induct)
  case (1 src array try' err pos)
  show ?case
  proof (cases "try' > 10 \<or> length array = 0")
    case True
    with "1.prems" show ?thesis
      by (subst (asm) randomWord.simps) (auto split: if_splits)
  next
    case False
    show ?thesis
    proof (cases "src pos")
      case (RandErr m)
      with False "1.prems" have rec: "randomWord src array (try' + 1) (Some m) (pos + 1) = (r, pos')"
        by (subst (asm) randomWord.simps) simp
      from "1.IH" [OF _ _ RandErr rec] False
      have IH: "pos + 1 \<le> pos' \<and> int pos' - int (pos + 1) \<le> max 0 (11 - (try' + 1))
         \<and> (\<forall>w. r = Inr w \<longrightarrow>
            w \<in> set array \<and> pos + 1 < pos' \<and> is_RandVal (src (pos' - 1))
            \<and> (\<forall>k. pos + 1 \<le> k \<and> k < pos' - 1 \<longrightarrow> \<not> is_RandVal (src k)))"
        by simp
      have "\<not> is_RandVal (src k)" if "r = Inr w" "pos \<le> k" "k < pos' - 1" for w k
      proof (cases "k = pos")
        case True then show ?thesis using RandErr by simp
      next
        case False
        with that IH show ?thesis by auto
      qed
      with IH False show ?thesis by auto
    next
      case (RandVal v)
      with False "1.prems" have "r = Inr (array ! (v mod length array))" "pos' = pos + 1"
        by (subst (asm) randomWord.simps, simp)+
      with False RandVal show ?thesis by auto
    qed
  qed
qed

lemma draws_split: "a \<le> b \<Longrightarrow> b \<le> c \<Longrightarrow> draws src a c = draws src a b + draws src b c"
proof -
  assume "a \<le> b" "b \<le> c"
  then have "[a..<c] = [a..<b] @ [b..<c]"
    by (metis le_Suc_ex upt_add_eq_append)
  then show ?thesis by (simp add: draws_def)
qed

lemma draws_none: "(\<forall>k. a \<le> k \<and> k < b \<longrightarrow> \<not> is_RandVal (src k)) \<Longrightarrow> draws src a b = 0"
  by (simp add: draws_def filter_empty_conv)

lemma randomWord_draws:
  assumes "randomWord src array try err pos = (Inr w, pos')"
  shows "draws src pos pos' = 1" "pos \<le> pos'" "w \<in> set array"
proof -
  from randomWord_result [OF assms]
  have lt: "pos < pos'" and v: "is_RandVal (src (pos' - 1))"
    and n: "\<forall>k. pos \<le> k \<and> k < pos' - 1 \<longrightarrow> \<not> is_RandVal (src k)" and w: "w \<in> set array"
    by auto
  from lt have "draws src pos pos' = draws src pos (pos' - 1) + draws src (pos' - 1) pos'"
    by (intro draws_split) auto
  moreover have "draws src pos (pos' - 1) = 0" using n by (rule draws_none)
  moreover have "[pos' - 1..<pos'] = [pos' - 1]" using lt
    by (metis Suc_diff_1 less_nat_zero_code not_gr_zero upt_conv_Cons upt_eq_Nil_conv order_refl lessI zero_less_diff)
  then have "draws src (pos' - 1) pos' = 1" using v by (simp add: draws_def)
  ultimately show "draws src pos pos' = 1" by simp
  show "pos \<le> pos'" using lt by simp
  show "w \<in> set array" by (rule w)
qed


lemma randomWord_panics:
  "try' \<le> 11 \<Longrightarrow> array \<noteq> [] \<Longrightarrow>
   (\<forall>k. k < nat (11 - try') \<longrightarrow> \<not> is_RandVal (src (pos + k))) \<Longrightarrow>
   \<exists>p. randomWord src array try' err pos = (Inl (Panic_rand p), pos + nat (11 - try'))"
proof (induction src array try' err pos rule: randomWord.induct)
  case (1 src array try' err pos)
  show ?case
  proof (cases "try' > 10")
    case True
    with "1.prems" have "try' = 11" by simp
    then show ?thesis by (subst randomWord.simps) simp
  next
    case False
    with "1.prems" have "\<not> is_RandVal (src (pos + 0))" by (intro "1.prems"(3)[rule_format]) auto
    then obtain m where m: "src pos = RandErr m" by (cases "src pos") auto
    have "\<exists>p. randomWord src array (try' + 1) (Some m) (pos + 1)
            = (Inl (Panic_rand p), pos + 1 + nat (11 - (try' + 1)))"
    proof (rule "1.IH" [OF _ _ m])
      show "\<not> 10 < try'" by (rule False)
      show "\<not> length array = 0" using "1.prems" by simp
      show "try' + 1 \<le> 11" using False by simp
      show "array \<noteq> []" using "1.prems" by simp
      show "\<forall>k. k < nat (11 - (try' + 1)) \<longrightarrow> \<not> is_RandVal (src (pos + 1 + k))"
      proof (intro allI impI)
        fix k assume "k < nat (11 - (try' + 1))"
        then have "Suc k < nat (11 - try')" using False by linarith
        then have "\<not> is_RandVal (src (pos + Suc k))" using "1.prems"(3) by blast
        then show "\<not> is_RandVal (src (pos + 1 + k))" by simp
      qed
    qed
    moreover have "pos + 1 + nat (11 - (try' + 1)) = pos + nat (11 - try')"
      using False by linarith
    ultimately obtain p where
      "randomWord src array (try' + 1) (Some m) (pos + 1) = (Inl (Panic_rand p), pos + nat (11 - try'))"
      by auto
    moreover have "randomWord src array try' err pos = randomWord src array (try' + 1) (Some m) (pos + 1)"
      using False "1.prems"(2) m by (subst randomWord.simps) simp
    ultimately show ?thesis by auto
  qed
qed

lemma characters_elem: "w \<in> set characters \<Longrightarrow> \<exists>c\<in>set alphabet. w = [c]"
  by (auto simp: characters_def)

lemma GenerateName_loop_step:
  assumes "i < 6" "GenerateName_loop src words i text pos = (Inr t, pos')"
  shows "\<exists>w p1. randomWord src (if i < 2 \<and> words \<noteq> [] then words else characters) 0 None pos = (Inr w, p1)
           \<and> GenerateName_loop src words (i + 1)
                (if i < 3 \<and> words \<noteq> [] then text @ ''-'' @ w else text @ w) p1 = (Inr t, pos')"
  using assms
  by (subst (asm) GenerateName_loop.simps) (auto split: if_splits prod.splits sum.splits)

lemma GenerateName_loop_end: "GenerateName_loop src words 6 text pos = (Inr text, pos)"
  by (subst GenerateName_loop.simps) simp

lemma GenerateName_loop_unrolled:
  assumes "GenerateName_loop src words 0 [] pos = (Inr t, pos')"
  shows "\<exists>w1 w2 c3 c4 c5 c6.
           w1 \<in> set (if words \<noteq> [] then words else characters)
         \<and> w2 \<in> set (if words \<noteq> [] then words else characters)
         \<and> c3 \<in> set characters \<and> c4 \<in> set characters \<and> c5 \<in> set characters
         \<and> c6 \<in> set characters
         \<and> t = (if words \<noteq> [] then ''-'' @ w1 @ ''-'' @ w2 @ ''-'' @ c3 @ c4 @ c5 @ c6
                 else w1 @ w2 @ c3 @ c4 @ c5 @ c6)
         \<and> draws src pos pos' = 6"
proof -
  from GenerateName_loop_step [OF _ assms] obtain w1 p1 where
    r1: "randomWord src (if words \<noteq> [] then words else characters) 0 None pos = (Inr w1, p1)"
    and l1: "GenerateName_loop src words 1 (if words \<noteq> [] then ''-'' @ w1 else w1) p1 = (Inr t, pos')"
    by (auto split: if_splits)
  from GenerateName_loop_step [OF _ l1] obtain w2 p2 where
    r2: "randomWord src (if words \<noteq> [] then words else characters) 0 None p1 = (Inr w2, p2)"
    and l2: "GenerateName_loop src words 2
               (if words \<noteq> [] then ''-'' @ w1 @ ''-'' @ w2 else w1 @ w2) p2 = (Inr t, pos')"
    by (auto split: if_splits)
  from GenerateName_loop_step [OF _ l2] obtain c3 p3 where
    r3: "randomWord src characters 0 None p2 = (Inr c3, p3)"
    and l3: "GenerateName_loop src words 3
               (if words \<noteq> [] then ''-'' @ w1 @ ''-'' @ w2 @ ''-'' @ c3 else w1 @ w2 @ c3) p3
             = (Inr t, pos')"
    by (auto split: if_splits)
  from GenerateName_loop_step [OF _ l3] obtain c4 p4 where
    r4: "randomWord src characters 0 None p3 = (Inr c4, p4)"
    and l4: "GenerateName_loop src words 4
               (if words \<noteq> [] then ''-'' @ w1 @ ''-'' @ w2 @ ''-'' @ c3 @ c4 else w1 @ w2 @ c3 @ c4) p4
             = (Inr t, pos')"
    by (auto split: if_splits)
  from GenerateName_loop_step [OF _ l4] obtain c5 p5 where
    r5: "randomWord src characters 0 None p4 = (Inr c5, p5)"
    and l5: "GenerateName_loop src words 5
               (if words \<noteq> [] then ''-'' @ w1 @ ''-'' @ w2 @ ''-'' @ c3 @ c4 @ c5
                else w1 @ w2 @ c3 @ c4 @ c5) p5
             = (Inr t, pos')"
    by (auto split: if_splits)
  from GenerateName_loop_step [OF _ l5] obtain c6 p6 where
    r6: "randomWord src characters 0 None p5 = (Inr c6, p6)"
    and l6: "GenerateName_loop src words 6
               (if words \<noteq> [] then ''-'' @ w1 @ ''-'' @ w2 @ ''-'' @ c3 @ c4 @ c5 @ c6
                else w1 @ w2 @ c3 @ c4 @ c5 @ c6) p6
             = (Inr t, pos')"
    by (auto split: if_splits)
  from l6 have t: "t = (if words \<noteq> [] then ''-'' @ w1 @ ''-'' @ w2 @ ''-'' @ c3 @ c4 @ c5 @ c6
                 else w1 @ w2 @ c3 @ c4 @ c5 @ c6)" and p6: "p6 = pos'"
    by (simp_all add: GenerateName_loop_end)
  note d = randomWord_draws [OF r1] randomWord_draws [OF r2] randomWord_draws [OF r3]
    randomWord_draws [OF r4] randomWord_draws [OF r5] randomWord_draws [OF r6]
  have "draws src pos p2 = 2" using draws_split [of pos p1 p2 src] d by simp
  then have "draws src pos p3 = 3" using draws_split [of pos p2 p3 src] d by simp
  then have "draws src pos p4 = 4" using draws_split [of pos p3 p4 src] d by simp
  then have "draws src pos p5 = 5" using draws_split [of pos p4 p5 src] d by simp
  then have "draws src pos p6 = 6" using draws_split [of pos p5 p6 src] d by simp
  with t p6 d show ?thesis by blast
qed

lemma hyphen_not_in_alphabet: "CHR ''-'' \<notin> set alphabet"
  by (simp add: alphabet_def)


lemma randomWord_Inl:
  "randomWord src array try' err pos = (Inl p, pos') \<Longrightarrow> array \<noteq> [] \<Longrightarrow> try' \<le> 11 \<Longrightarrow>
     k < nat (11 - try') \<Longrightarrow> \<not> is_RandVal (src (pos + k))"
proof (induction src array try' err pos arbitrary: k rule: randomWord.induct)
  case (1 src array try' err pos)
  from "1.prems"(4) have small: "\<not> try' > 10" by simp
  show ?case
  proof (cases "src pos")
    case (RandVal v)
    with small "1.prems" show ?thesis by (subst (asm) randomWord.simps) simp
  next
    case (RandErr m)
    with small "1.prems" have rec: "randomWord src array (try' + 1) (Some m) (pos + 1) = (Inl p, pos')"
      by (subst (asm) randomWord.simps) simp
    show ?thesis
    proof (cases k)
      case 0
      with RandErr show ?thesis by simp
    next
      case (Suc j)
      with "1.prems"(4) have j: "j < nat (11 - (try' + 1))" by linarith
      have "\<not> is_RandVal (src (pos + 1 + j))"
      proof (rule "1.IH" [OF _ _ RandErr rec])
        show "\<not> 10 < try'" by (rule small)
        show "\<not> length array = 0" using "1.prems"(2) by simp
        show "array \<noteq> []" by (rule "1.prems"(2))
        show "try' + 1 \<le> 11" using small by simp
        show "j < nat (11 - (try' + 1))" by (rule j)
      qed
      with Suc show ?thesis by simp
    qed
  qed
qed

text \<open>
  Claim C9. A call of \<^verbatim>\<open>randomWord\<close> is a total function of the randomness source (its
  recursion is bounded by \<open>11 - try\<close>): started with \<open>try = 0\<close> it reads the source at
  most 11 times, the first attempt and at most 10 retries. For a non-empty array it
  ends in the panic exactly when all of these attempts failed, and a word it returns
  is an element of the array, so it is not empty when the array holds no empty string.
\<close>

theorem randomWord_bounded_retries:
  assumes "randomWord src array try' err pos = (r, pos')"
  shows "pos \<le> pos' \<and> int pos' - int pos \<le> max 0 (11 - try')
       \<and> (\<forall>w. r = Inr w \<longrightarrow> w \<in> set array \<and> ([] \<notin> set array \<longrightarrow> w \<noteq> []))
       \<and> (array \<noteq> [] \<and> try' \<le> 11 \<longrightarrow>
            ((\<exists>p. r = Inl (Panic_rand p) \<and> pos' = pos + nat (11 - try'))
              \<longleftrightarrow> (\<forall>k. k < nat (11 - try') \<longrightarrow> \<not> is_RandVal (src (pos + k)))))"
proof -
  note res = randomWord_result [OF assms]
  have elem: "\<forall>w. r = Inr w \<longrightarrow> w \<in> set array \<and> ([] \<notin> set array \<longrightarrow> w \<noteq> [])"
    using res by auto
  have fatal: "(\<exists>p. r = Inl (Panic_rand p) \<and> pos' = pos + nat (11 - try'))
              \<longleftrightarrow> (\<forall>k. k < nat (11 - try') \<longrightarrow> \<not> is_RandVal (src (pos + k)))"
    if ne: "array \<noteq> []" and le: "try' \<le> 11"
  proof
    assume "\<exists>p. r = Inl (Panic_rand p) \<and> pos' = pos + nat (11 - try')"
    then obtain p where "randomWord src array try' err pos = (Inl (Panic_rand p), pos')"
      using assms by auto
    from randomWord_Inl [OF this ne le]
    show "\<forall>k. k < nat (11 - try') \<longrightarrow> \<not> is_RandVal (src (pos + k))" by blast
  next
    assume "\<forall>k. k < nat (11 - try') \<longrightarrow> \<not> is_RandVal (src (pos + k))"
    from randomWord_panics [OF le ne this, of err] assms
    show "\<exists>p. r = Inl (Panic_rand p) \<and> pos' = pos + nat (11 - try')" by auto
  qed
  from res elem fatal show ?thesis by blast
qed

text \<open>
  Two runs on the alphabet: the source that fails twice gives the third outcome, the
  source that always fails ends in the panic after 11 attempts.
\<close>

theorem randomWord_bounded_retries_witness:
  "randomWord flaky_src characters 0 None 0 = (Inr ''c'', 3)
   \<and> ''c'' \<in> set characters \<and> [] \<notin> set characters \<and> characters \<noteq> []
   \<and> randomWord broken_src characters 0 None 0 = (Inl (Panic_rand (Some ''EIO'')), 11)
   \<and> \<not> is_RandVal (broken_src 10)"
proof -
  have a: "randomWord flaky_src characters 0 None 0 = (Inr ''c'', 3)" by code_simp
  have b: "randomWord broken_src characters 0 None 0 = (Inl (Panic_rand (Some ''EIO'')), 11)"
    by code_simp
  have c: "[] \<notin> set characters" "characters \<noteq> []" by (simp_all add: characters_def alphabet_def)
  have d: "\<not> is_RandVal (broken_src 10)" by (simp add: broken_src_def)
  from randomWord_bounded_retries [OF a] randomWord_bounded_retries [OF b] a b c d
  show ?thesis by simp
qed

text \<open>
  Claim C4, as the code has it. A run of \<^verbatim>\<open>GenerateName\<close> that returns has made exactly
  six successful draws. With an empty word list the name is six characters of the
  alphabet, without a hyphen. With a non-empty word list the name is
  \<open>word-word-\<close> followed by four characters of the alphabet: the first two draws come
  from the word list, the third draw is already a character, and no separator follows
  it.
\<close>

theorem GenerateName_shape:
  assumes "GenerateName src words pos = (Inr name, pos')"
  shows "draws src pos pos' = 6
       \<and> (words = [] \<longrightarrow> length name = 6 \<and> set name \<subseteq> set alphabet \<and> CHR ''-'' \<notin> set name)
       \<and> (words \<noteq> [] \<longrightarrow>
            (\<exists>w1\<in>set words. \<exists>w2\<in>set words. \<exists>s.
               length s = 4 \<and> set s \<subseteq> set alphabet
             \<and> name = w1 @ ''-'' @ w2 @ ''-'' @ s))"
proof -
  from assms obtain t where l: "GenerateName_loop src words 0 [] pos = (Inr t, pos')"
    and name: "name = strings_TrimPrefix t ''-''"
    by (auto simp: GenerateName_def split: prod.splits sum.splits)
  from GenerateName_loop_unrolled [OF l] obtain w1 w2 c3 c4 c5 c6 where
    w1: "w1 \<in> set (if words \<noteq> [] then words else characters)"
    and w2: "w2 \<in> set (if words \<noteq> [] then words else characters)"
    and c: "c3 \<in> set characters" "c4 \<in> set characters" "c5 \<in> set characters" "c6 \<in> set characters"
    and t: "t = (if words \<noteq> [] then ''-'' @ w1 @ ''-'' @ w2 @ ''-'' @ c3 @ c4 @ c5 @ c6
                 else w1 @ w2 @ c3 @ c4 @ c5 @ c6)"
    and d: "draws src pos pos' = 6"
    by blast
  from c obtain a3 a4 a5 a6 where a: "c3 = [a3]" "c4 = [a4]" "c5 = [a5]" "c6 = [a6]"
    and ain: "a3 \<in> set alphabet" "a4 \<in> set alphabet" "a5 \<in> set alphabet" "a6 \<in> set alphabet"
    by (auto dest!: characters_elem)
  have empty: "length name = 6 \<and> set name \<subseteq> set alphabet \<and> CHR ''-'' \<notin> set name" if "words = []"
  proof -
    from that w1 w2 obtain a1 a2 where b: "w1 = [a1]" "w2 = [a2]"
      and bin: "a1 \<in> set alphabet" "a2 \<in> set alphabet"
      by (auto dest!: characters_elem)
    from that t a b have t': "t = [a1, a2, a3, a4, a5, a6]" by simp
    from bin hyphen_not_in_alphabet have "a1 \<noteq> CHR ''-''" by auto
    with t' name have "name = [a1, a2, a3, a4, a5, a6]" by (simp add: strings_TrimPrefix_def)
    with ain bin hyphen_not_in_alphabet show ?thesis by auto
  qed
  have nonempty: "\<exists>w1\<in>set words. \<exists>w2\<in>set words. \<exists>s.
               length s = 4 \<and> set s \<subseteq> set alphabet \<and> name = w1 @ ''-'' @ w2 @ ''-'' @ s"
    if "words \<noteq> []"
  proof -
    from that t a have "t = ''-'' @ w1 @ ''-'' @ w2 @ ''-'' @ [a3, a4, a5, a6]" by simp
    with name have "name = w1 @ ''-'' @ w2 @ ''-'' @ [a3, a4, a5, a6]"
      by (simp add: strings_TrimPrefix_def)
    moreover have "length [a3, a4, a5, a6] = 4" "set [a3, a4, a5, a6] \<subseteq> set alphabet"
      using ain by auto
    ultimately show ?thesis using that w1 w2 by (intro bexI [of _ w1] bexI [of _ w2] exI [of _ "[a3, a4, a5, a6]"]) auto
  qed
  from d empty nonempty show ?thesis by blast
qed


theorem GenerateName_shape_witness:
  "GenerateName demo_src [''cornflake'', ''peddling''] 0 = (Inr ''cornflake-peddling-cdef'', 6)
   \<and> draws demo_src 0 6 = 6
   \<and> GenerateName flaky_src [] 0 = (Inr ''cdefgh'', 8)
   \<and> draws flaky_src 0 8 = 6
   \<and> length ''cdefgh'' = 6 \<and> CHR ''-'' \<notin> set ''cdefgh''"
proof -
  have a: "GenerateName demo_src [''cornflake'', ''peddling''] 0 = (Inr ''cornflake-peddling-cdef'', 6)"
    by code_simp
  have b: "GenerateName flaky_src [] 0 = (Inr ''cdefgh'', 8)"
    by code_simp
  from GenerateName_shape [OF a] GenerateName_shape [OF b] a b
  show ?thesis by simp
qed

text \<open>
  Claim C4 as stated asks for three words of the word list and three more characters.
  With the words \<open>cornflake\<close> and \<open>peddling\<close> the name is
  \<open>cornflake-peddling-cdef\<close>, which is not of that form.
\<close>

theorem GenerateName_three_words_counterexample:
  "GenerateName demo_src [''cornflake'', ''peddling''] 0 = (Inr ''cornflake-peddling-cdef'', 6)
   \<and> \<not> (\<exists>w1\<in>set [''cornflake'', ''peddling'']. \<exists>w2\<in>set [''cornflake'', ''peddling''].
          \<exists>w3\<in>set [''cornflake'', ''peddling'']. \<exists>s.
            length s = 3 \<and> ''cornflake-peddling-cdef'' = w1 @ ''-'' @ w2 @ ''-'' @ w3 @ s)"
proof -
  have a: "GenerateName demo_src [''cornflake'', ''peddling''] 0 = (Inr ''cornflake-peddling-cdef'', 6)"
    by code_simp
  have b: "\<not> (\<exists>w1\<in>set [''cornflake'', ''peddling'']. \<exists>w2\<in>set [''cornflake'', ''peddling''].
          \<exists>w3\<in>set [''cornflake'', ''peddling'']. \<exists>s.
            length s = 3 \<and> ''cornflake-peddling-cdef'' = w1 @ ''-'' @ w2 @ ''-'' @ w3 @ s)"
    by auto
  from a b show ?thesis by blast
qed


section \<open>Properties of Store\<close>

text \<open>
  What a call of \<^verbatim>\<open>Store\<close> that returns \<^verbatim>\<open>nil\<close> has done: the document it
  leaves and the row it has appended.
\<close>

lemma Store_success:
  assumes "Store e document st = (None, d', st')"
  shows "\<exists>name data.
           GenerateSafeName e (table st) = Inr name
         \<and> NUL \<notin> set (normalize_newlines (Content document))
         \<and> d' = document\<lparr>ID := name, Upload := Round_Second (Now e),
                  Expiration := Round_Second (Expiration document),
                  Content := normalize_newlines (Content document),
                  Syntax := (if Custom document = [] \<and> Syntax document = ''none'' then []
                             else Syntax document)\<rparr>
         \<and> table st' = table st @
               [\<lparr>row_id = sha256_hex e name, row_content = data,
                 row_custom = Custom document, row_syntax = Syntax d',
                 row_upload = Some (time_Format e (Upload d')),
                 row_expiration = (if Expiration d' \<noteq> Time_zero
                                   then Some (time_Format e (Expiration d')) else None),
                 row_views = Views document\<rparr>]"
  using assms
  by (auto simp: Store_def Let_def db_Exec_def emit_def strings_Contains_single
           split: sum.splits option.splits prod.splits if_splits)

text \<open>
  Claim C6, as the code has it. A successful \<^verbatim>\<open>Store\<close> appends one row, keyed by
  the digest of the new identifier, whose view count is the \<^verbatim>\<open>Views\<close> field of the
  document the caller passed: the statement binds \<^verbatim>\<open>document.Views\<close>, and nothing
  resets it.
\<close>

theorem Store_persists_Views:
  assumes "Store e document st = (None, d', st')"
  shows "\<exists>row. table st' = table st @ [row]
             \<and> row_id row = sha256_hex e (ID d')
             \<and> row_views row = Views document"
proof -
  from Store_success [OF assms] obtain name data where
    d': "ID d' = name"
    and t: "table st' = table st @
               [\<lparr>row_id = sha256_hex e name, row_content = data,
                 row_custom = Custom document, row_syntax = Syntax d',
                 row_upload = Some (time_Format e (Upload d')),
                 row_expiration = (if Expiration d' \<noteq> Time_zero
                                   then Some (time_Format e (Expiration d')) else None),
                 row_views = Views document\<rparr>]"
    by auto
  from t d' show ?thesis by simp
qed

text \<open>
  The run of \<^const>\<open>Store\<close> on \<^const>\<open>demo_document\<close>, whose \<open>Views\<close> is 0.
\<close>

theorem Store_persists_Views_witness:
  "Store demo_env demo_document empty_state =
     (None, demo_document\<lparr>ID := ''abc'', Content := ''hello'' @ [LF],
              Upload := time_Unix 978307200 0\<rparr>,
      \<lparr>table = [demo_row],
       trace = [Called_GenerateSafeName, Called_Highlight (''hello'' @ [LF]) [],
                Called_FilterSpam (''hello'' @ [LF]),
                Called_scrypt ''abc'' ''2001-01-01 00:00:00'',
                Called_encrypt (''hello'' @ [LF]) ''abc/2001-01-01 00:00:00'',
                Db (Insert demo_row)],
       pending = []\<rparr>)
   \<and> row_views demo_row = Views demo_document"
proof -
  have a: "Store demo_env demo_document empty_state =
     (None, demo_document\<lparr>ID := ''abc'', Content := ''hello'' @ [LF],
              Upload := time_Unix 978307200 0\<rparr>,
      \<lparr>table = [demo_row],
       trace = [Called_GenerateSafeName, Called_Highlight (''hello'' @ [LF]) [],
                Called_FilterSpam (''hello'' @ [LF]),
                Called_scrypt ''abc'' ''2001-01-01 00:00:00'',
                Called_encrypt (''hello'' @ [LF]) ''abc/2001-01-01 00:00:00'',
                Db (Insert demo_row)],
       pending = []\<rparr>)"
    by code_simp
  from Store_persists_Views [OF a] a show ?thesis
    by (simp add: demo_row_def demo_document_def)
qed

text \<open>
  Claim C6 as stated fails for a document the caller passes with \<open>Views = 5\<close>: the
  call succeeds and the row it writes has the view count 5, not 0.
\<close>

theorem Store_persists_Views_counterexample:
  "fst (Store demo_env (demo_document\<lparr>Views := 5\<rparr>) empty_state) = None
   \<and> map row_views (table (snd (snd (Store demo_env (demo_document\<lparr>Views := 5\<rparr>) empty_state))))
       = [5]"
  by code_simp

text \<open>
  The whole result of \<^verbatim>\<open>Store\<close> on a content that holds a null byte after the
  normalization.
\<close>

lemma Store_null_byte_eq:
  assumes "NUL \<in> set (normalize_newlines (Content document))"
  shows "Store e document st =
     (case GenerateSafeName e (table st) of
        Inl m \<Rightarrow> (Some (NameError m), document, emit Called_GenerateSafeName st)
      | Inr name \<Rightarrow>
          (Some (ErrorsNew ''file contains 0x00 bytes''),
           document\<lparr>ID := name, Upload := Round_Second (Now e),
                     Expiration := Round_Second (Expiration document),
                     Content := normalize_newlines (Content document)\<rparr>,
           emit Called_GenerateSafeName st))"
  using assms
  by (simp add: Store_def Let_def emit_def strings_Contains_single split: sum.splits)

text \<open>
  Claim C7, as the code has it. When the normalized content holds a null byte,
  \<^verbatim>\<open>Store\<close> returns an error, and the only call it has made is the one to
  \<^verbatim>\<open>GenerateSafeName\<close>: no rendering, no key derivation, no encryption and no
  statement; the table and the pending statements are unchanged. The error is the
  rejection \<open>file contains 0x00 bytes\<close> when a name was generated; the name is
  generated first, and when that fails its error is the one returned.
\<close>

theorem Store_null_byte:
  assumes "NUL \<in> set (normalize_newlines (Content document))"
  shows "fst (Store e document st) =
           (case GenerateSafeName e (table st) of
              Inl m \<Rightarrow> Some (NameError m)
            | Inr name \<Rightarrow> Some (ErrorsNew ''file contains 0x00 bytes''))
       \<and> fst (Store e document st) \<noteq> None
       \<and> table (snd (snd (Store e document st))) = table st
       \<and> pending (snd (snd (Store e document st))) = pending st
       \<and> trace (snd (snd (Store e document st))) = trace st @ [Called_GenerateSafeName]"
proof (cases "GenerateSafeName e (table st)")
  case (Inl m)
  then have "Store e document st =
      (Some (NameError m), document, emit Called_GenerateSafeName st)"
    by (simp add: Store_null_byte_eq [OF assms])
  with Inl show ?thesis by (simp add: emit_def)
next
  case (Inr name)
  then have "Store e document st =
      (Some (ErrorsNew ''file contains 0x00 bytes''),
       document\<lparr>ID := name, Upload := Round_Second (Now e),
                 Expiration := Round_Second (Expiration document),
                 Content := normalize_newlines (Content document)\<rparr>,
       emit Called_GenerateSafeName st)"
    by (simp add: Store_null_byte_eq [OF assms])
  with Inr show ?thesis by (simp add: emit_def)
qed

text \<open>
  A content with a null byte, in the environment whose name generator succeeds.
\<close>

theorem Store_null_byte_witness:
  "NUL \<in> set (normalize_newlines (Content (demo_document\<lparr>Content := ''a'' @ [NUL] @ ''b''\<rparr>)))
   \<and> Store demo_env (demo_document\<lparr>Content := ''a'' @ [NUL] @ ''b''\<rparr>) empty_state =
       (Some (ErrorsNew ''file contains 0x00 bytes''),
        demo_document\<lparr>ID := ''abc'', Content := ''a'' @ [NUL] @ ''b'' @ [LF],
                       Upload := time_Unix 978307200 0\<rparr>,
        \<lparr>table = [], trace = [Called_GenerateSafeName], pending = []\<rparr>)"
proof -
  have a: "NUL \<in> set (normalize_newlines (Content (demo_document\<lparr>Content := ''a'' @ [NUL] @ ''b''\<rparr>)))"
    by code_simp
  have b: "Store demo_env (demo_document\<lparr>Content := ''a'' @ [NUL] @ ''b''\<rparr>) empty_state =
       (Some (ErrorsNew ''file contains 0x00 bytes''),
        demo_document\<lparr>ID := ''abc'', Content := ''a'' @ [NUL] @ ''b'' @ [LF],
                       Upload := time_Unix 978307200 0\<rparr>,
        \<lparr>table = [], trace = [Called_GenerateSafeName], pending = []\<rparr>)"
    by code_simp
  from Store_null_byte [OF a, of demo_env empty_state] a b show ?thesis by simp
qed

text \<open>
  Claim C7 as stated fails when the name generator fails: the content holds a null
  byte, and the error \<^verbatim>\<open>Store\<close> returns is the generator's, not the rejection.
\<close>

theorem Store_null_byte_counterexample:
  "NUL \<in> set (normalize_newlines (Content (demo_document\<lparr>Content := ''a'' @ [NUL] @ ''b''\<rparr>)))
   \<and> fst (Store (demo_env\<lparr>GenerateSafeName := \<lambda>t. Inl ''connection refused''\<rparr>)
            (demo_document\<lparr>Content := ''a'' @ [NUL] @ ''b''\<rparr>) empty_state)
       = Some (NameError ''connection refused'')
   \<and> Some (NameError ''connection refused'') \<noteq> Some (ErrorsNew ''file contains 0x00 bytes'')"
  by code_simp

text \<open>
  Claim C10. In a call of \<^verbatim>\<open>Store\<close> that gets past the name generation and the
  null-byte check, the document's \<open>Syntax\<close> is left as the empty string when
  \<open>Custom\<close> is empty and \<open>Syntax\<close> was \<open>none\<close>, and as it was otherwise. For an
  empty \<open>Custom\<close> it is then not \<open>none\<close>, and \<^verbatim>\<open>Highlight\<close> has been called with
  the normalized content and that rewritten hint. When the call succeeds, the row it
  has appended carries the same \<open>Syntax\<close>.
\<close>

theorem Store_syntax_none:
  assumes "Store e document st = (err, d', st')"
    and "GenerateSafeName e (table st) = Inr name"
    and "NUL \<notin> set (normalize_newlines (Content document))"
  shows "Syntax d' = (if Custom document = [] \<and> Syntax document = ''none'' then []
                      else Syntax document)
       \<and> (Custom document = [] \<longrightarrow>
            Syntax d' \<noteq> ''none''
          \<and> Called_Highlight (normalize_newlines (Content document)) (Syntax d') \<in> set (trace st'))
       \<and> (err = None \<longrightarrow>
            (\<exists>row. table st' = table st @ [row] \<and> row_syntax row = Syntax d'
                  \<and> row_custom row = Custom document))"
  using assms
  by (auto simp: Store_def Let_def db_Exec_def emit_def strings_Contains_single
           split: sum.splits option.splits prod.splits if_splits)

text \<open>
  The run of \<^const>\<open>Store\<close> on the document with the hint \<open>none\<close>: the row written
  is \<^const>\<open>demo_row\<close>, whose \<open>row_syntax\<close> is empty.
\<close>

theorem Store_syntax_none_witness:
  "GenerateSafeName demo_env (table empty_state) = Inr ''abc''
   \<and> NUL \<notin> set (normalize_newlines (Content (demo_document\<lparr>Syntax := ''none''\<rparr>)))
   \<and> Custom (demo_document\<lparr>Syntax := ''none''\<rparr>) = []
   \<and> fst (Store demo_env (demo_document\<lparr>Syntax := ''none''\<rparr>) empty_state) = None
   \<and> Syntax (fst (snd (Store demo_env (demo_document\<lparr>Syntax := ''none''\<rparr>) empty_state))) = []
   \<and> table (snd (snd (Store demo_env (demo_document\<lparr>Syntax := ''none''\<rparr>) empty_state)))
       = [demo_row]
   \<and> Called_Highlight (''hello'' @ [LF]) []
       \<in> set (trace (snd (snd (Store demo_env (demo_document\<lparr>Syntax := ''none''\<rparr>) empty_state))))"
proof -
  obtain err d' st' where s: "Store demo_env (demo_document\<lparr>Syntax := ''none''\<rparr>) empty_state = (err, d', st')"
    by (cases "Store demo_env (demo_document\<lparr>Syntax := ''none''\<rparr>) empty_state") auto
  have a: "GenerateSafeName demo_env (table empty_state) = Inr ''abc''" by code_simp
  have b: "NUL \<notin> set (normalize_newlines (Content (demo_document\<lparr>Syntax := ''none''\<rparr>)))"
    by code_simp
  have c: "Custom (demo_document\<lparr>Syntax := ''none''\<rparr>) = []" by code_simp
  have d: "fst (Store demo_env (demo_document\<lparr>Syntax := ''none''\<rparr>) empty_state) = None"
    by code_simp
  have e: "table (snd (snd (Store demo_env (demo_document\<lparr>Syntax := ''none''\<rparr>) empty_state)))
       = [demo_row]" by code_simp
  have f: "normalize_newlines (Content (demo_document\<lparr>Syntax := ''none''\<rparr>)) = ''hello'' @ [LF]"
    by code_simp
  from Store_syntax_none [OF s a b] a b c d e f s show ?thesis by auto
qed

text \<open>
  The statements of \<^verbatim>\<open>Store\<close>: none, or the one insert, keyed by the digest of
  the identifier.
\<close>

lemma Store_db_ops:
  assumes "Store e document st = (err, d', st')"
  shows "db_ops (trace st') = db_ops (trace st)
       \<or> (\<exists>r. db_ops (trace st') = db_ops (trace st) @ [Insert r]
              \<and> row_id r = sha256_hex e (ID d'))"
  using assms
  by (auto simp: Store_def Let_def db_Exec_def emit_def db_ops_def List.map_filter_def
           split: option.splits sum.splits prod.splits if_splits)

section \<open>Properties of Request\<close>

lemma db_ops_append [simp]: "db_ops (a @ b) = db_ops a @ db_ops b"
  by (simp add: db_ops_def List.map_filter_def)

lemma db_ops_Nil [simp]: "db_ops [] = []"
  by (simp add: db_ops_def List.map_filter_def)

lemma db_ops_Cons [simp]:
  "db_ops (ev # tr) = (case event_db_op ev of None \<Rightarrow> db_ops tr | Some q \<Rightarrow> q # db_ops tr)"
  by (simp add: db_ops_def List.map_filter_def split: option.splits)

lemma find_Update_views:
  "find (\<lambda>r. row_id r = k)
     (map (\<lambda>r. if row_id r = k' then r\<lparr>row_views := row_views r + 1\<rparr> else r) t) =
     map_option (\<lambda>r. if row_id r = k' then r\<lparr>row_views := row_views r + 1\<rparr> else r)
       (find (\<lambda>r. row_id r = k) t)"
  by (induction t) auto

lemma find_Delete_other:
  "k' \<noteq> k \<Longrightarrow>
     find (\<lambda>r. row_id r = k) (filter (\<lambda>r. row_id r \<noteq> k') t) = find (\<lambda>r. row_id r = k) t"
  by (induction t) auto

lemma find_row_id: "find (\<lambda>r. row_id r = k) t = Some r \<Longrightarrow> row_id r = k"
  by (auto dest: find_Some_iff [THEN iffD1])

text \<open>
  The definitions a run of \<^const>\<open>Request\<close> unfolds to.
\<close>

lemmas Request_defs =
  Request_def Request_expiration_def db_QueryRow_def go_db_Exec_def db_Exec_def emit_def Let_def
  strings_Contains_single Before_def

lemma Request_expiration_decrypt:
  "Request_expiration (e\<lparr>decrypt := f\<rparr>) id' raw x doc st = Request_expiration e id' raw x doc st"
  by (simp add: Request_expiration_def db_Exec_def Let_def
        cong: option.case_cong sum.case_cong if_cong)

lemma parsed_upload_decrypt: "parsed_upload (e\<lparr>decrypt := f\<rparr>) upload = parsed_upload e upload"
  by (simp add: parsed_upload_def)

text \<open>
  Claim C3. Let the row be fetched, the key derived, and \<^verbatim>\<open>decrypt\<close> fail with the
  message \<open>m\<close>. If \<open>m\<close> is \<open>cipher: message authentication failed\<close> and the stored
  content holds no null byte, \<^verbatim>\<open>Request\<close> goes on exactly as if the decryption had
  succeeded and returned the stored bytes: it never returns the decryption error, a
  document it returns has the stored bytes as content (stripped for a raw request),
  and it does return one when the row has no expiration. Every other decryption
  failure is returned to the caller, with the empty document.
\<close>

theorem Request_decrypt_failure:
  assumes "db_fault e (Select (sha256_hex e id')) = None"
    and "find (\<lambda>r. row_id r = sha256_hex e id') (table st) = Some r"
    and "scrypt_Key e id' (time_Format e (parsed_upload e (row_upload r))) = Inr key"
    and "decrypt e (row_content r) key = Inl m"
  shows "(m = auth_failed \<and> NUL \<notin> set (row_content r) \<longrightarrow>
            Request e id' raw st = Request (e\<lparr>decrypt := \<lambda>c k. Inr c\<rparr>) id' raw st
          \<and> (\<forall>m'. snd (fst (Request e id' raw st)) \<noteq> Some (AESError m'))
          \<and> (snd (fst (Request e id' raw st)) = None \<longrightarrow>
               Content (fst (fst (Request e id' raw st))) =
                 (if raw then StripHTML e (row_content r) else row_content r))
          \<and> (row_expiration r = None \<longrightarrow> snd (fst (Request e id' raw st)) = None))
       \<and> (\<not> (m = auth_failed \<and> NUL \<notin> set (row_content r)) \<longrightarrow>
            fst (Request e id' raw st) = (Document_zero, Some (AESError m)))"
proof -
  obtain res st' where R: "Request e id' raw st = (res, st')"
    by (cases "Request e id' raw st") auto
  have other: "res = (Document_zero, Some (AESError m))"
    if "\<not> (m = auth_failed \<and> NUL \<notin> set (row_content r))"
    using R assms that
    by (auto simp: Request_def db_QueryRow_def go_db_Exec_def emit_def Let_def
          strings_Contains_single)
  have same: "Request (e\<lparr>decrypt := \<lambda>c k. Inr c\<rparr>) id' raw st = (res, st')"
    if "m = auth_failed" "NUL \<notin> set (row_content r)"
    using R assms that
    by (simp add: Request_def db_QueryRow_def go_db_Exec_def emit_def Let_def
          strings_Contains_single Request_expiration_decrypt parsed_upload_decrypt)
  have legacy: "(\<forall>m'. snd res \<noteq> Some (AESError m'))
      \<and> (snd res = None \<longrightarrow>
            Content (fst res) = (if raw then StripHTML e (row_content r) else row_content r))
      \<and> (row_expiration r = None \<longrightarrow> snd res = None)"
    if "m = auth_failed" "NUL \<notin> set (row_content r)"
    using R assms that
    by (auto simp: Request_defs split: option.splits sum.splits prod.splits if_splits)
  from other same legacy show ?thesis by (simp add: R)
qed


text \<open>
  Two rows whose content the stand-in cipher rejects: plain text without a null byte
  is returned as it is, a content with a null byte gives the decryption error.
\<close>

theorem Request_decrypt_failure_witness:
  "Request demo_env ''abc'' False
     (demo_state (demo_row\<lparr>row_content := ''written before encryption'', row_expiration := None\<rparr>))
   = ((\<lparr>ID = ''abc'', Content = ''written before encryption'', Syntax = [],
        Upload = time_Unix 978307200 0, Expiration = Time_zero, Views = 0, Custom = []\<rparr>, None),
      \<lparr>table = [demo_row\<lparr>row_content := ''written before encryption'', row_expiration := None\<rparr>],
       trace = [Db (Select ''sha256-abc''), Go_Db (Update_views ''sha256-abc''),
                Called_scrypt ''abc'' ''2001-01-01 00:00:00'',
                Called_decrypt ''written before encryption'' ''abc/2001-01-01 00:00:00''],
       pending = [Update_views ''sha256-abc'']\<rparr>)
   \<and> decrypt demo_env ''written before encryption'' ''abc/2001-01-01 00:00:00'' = Inl auth_failed
   \<and> NUL \<notin> set ''written before encryption''
   \<and> decrypt demo_env [CHR ''a'', NUL] ''abc/2001-01-01 00:00:00'' = Inl auth_failed
   \<and> fst (Request demo_env ''abc'' False (demo_state (demo_row\<lparr>row_content := [CHR ''a'', NUL]\<rparr>)))
       = (Document_zero, Some (AESError auth_failed))"
proof -
  let ?r1 = "demo_row\<lparr>row_content := ''written before encryption'', row_expiration := None\<rparr>"
  let ?r2 = "demo_row\<lparr>row_content := [CHR ''a'', NUL]\<rparr>"
  have sel: "db_fault demo_env (Select (sha256_hex demo_env ''abc'')) = None"
    by code_simp
  have f1: "find (\<lambda>r. row_id r = sha256_hex demo_env ''abc'') (table (demo_state ?r1)) = Some ?r1"
    by code_simp
  have f2: "find (\<lambda>r. row_id r = sha256_hex demo_env ''abc'') (table (demo_state ?r2)) = Some ?r2"
    by code_simp
  have k1: "scrypt_Key demo_env ''abc''
             (time_Format demo_env (parsed_upload demo_env (row_upload ?r1)))
             = Inr ''abc/2001-01-01 00:00:00''"
    by code_simp
  have k2: "scrypt_Key demo_env ''abc''
             (time_Format demo_env (parsed_upload demo_env (row_upload ?r2)))
             = Inr ''abc/2001-01-01 00:00:00''"
    by code_simp
  have pu: "parsed_upload demo_env (row_upload ?r1) = time_Unix 978307200 0" by code_simp
  have d1: "decrypt demo_env (row_content ?r1) ''abc/2001-01-01 00:00:00'' = Inl auth_failed"
    and d2: "decrypt demo_env (row_content ?r2) ''abc/2001-01-01 00:00:00'' = Inl auth_failed"
    by code_simp+
  have n1: "NUL \<notin> set (row_content ?r1)" and n2: "NUL \<in> set (row_content ?r2)"
    by code_simp+
  have x1: "row_expiration ?r1 = None" by code_simp
  have v: "Request demo_env ''abc'' False (demo_state ?r1)
   = ((\<lparr>ID = ''abc'', Content = ''written before encryption'', Syntax = [],
        Upload = time_Unix 978307200 0, Expiration = Time_zero, Views = 0, Custom = []\<rparr>, None),
      \<lparr>table = [?r1],
       trace = [Db (Select ''sha256-abc''), Go_Db (Update_views ''sha256-abc''),
                Called_scrypt ''abc'' ''2001-01-01 00:00:00'',
                Called_decrypt ''written before encryption'' ''abc/2001-01-01 00:00:00''],
       pending = [Update_views ''sha256-abc'']\<rparr>)"
    by code_simp
  from Request_decrypt_failure [OF sel f1 k1 d1, of False]
       Request_decrypt_failure [OF sel f2 k2 d2, of False]
       d1 d2 n1 n2 x1 v
  show ?thesis by (simp add: demo_row_def)
qed

text \<open>
  Claim C1, as the code has it. A row whose expiration is the Unix epoch and whose
  view count is 0, read once: \<^verbatim>\<open>Request\<close> returns the decrypted content and no
  error, it issues the query and the view-count update and no delete (the delete is
  guarded by \<^verbatim>\<open>doc.Views > 0\<close>, and \<^verbatim>\<open>doc.Views\<close> is the count that was
  fetched), the table is as it was, and once the pending update has run the row is
  still there, with the view count 1 if the update succeeded.
\<close>

theorem Request_volatile_first_read:
  assumes "db_fault e (Select (sha256_hex e id')) = None"
    and "find (\<lambda>r. row_id r = sha256_hex e id') (table st) = Some r"
    and "scrypt_Key e id' (time_Format e (parsed_upload e (row_upload r))) = Inr key"
    and "decrypt e (row_content r) key = Inr data"
    and "row_expiration r = Some x" and "time_Parse e x = Inr (time_Unix 0 0)"
    and "row_views r = 0"
    and "pending st = []"
  shows "fst (Request e id' raw st) =
           (\<lparr>ID = id', Content = (if raw then StripHTML e data else data),
             Syntax = row_syntax r, Upload = parsed_upload e (row_upload r), Expiration = time_Unix 0 0, Views = 0,
             Custom = row_custom r\<rparr>, None)
       \<and> table (snd (Request e id' raw st)) = table st
       \<and> db_ops (trace (snd (Request e id' raw st))) =
           db_ops (trace st) @ [Select (sha256_hex e id'), Update_views (sha256_hex e id')]
       \<and> pending (snd (Request e id' raw st)) = [Update_views (sha256_hex e id')]
       \<and> find (\<lambda>r. row_id r = sha256_hex e id')
            (table (run_pending e (snd (Request e id' raw st)))) =
           Some (if db_fault e (Update_views (sha256_hex e id')) = None
                 then r\<lparr>row_views := 1\<rparr> else r)"
proof -
  have k: "row_id r = sha256_hex e id'" using assms(2) by (rule find_row_id)
  show ?thesis
    using assms k
    by (simp add: Request_defs Document_zero_def time_Unix_def run_pending_def find_Update_views
             split: option.splits)
qed

text \<open>
  The first read of the volatile row \<^const>\<open>demo_row\<close>.
\<close>

theorem Request_volatile_first_read_witness:
  "fst (Request demo_env ''abc'' False (demo_state demo_row)) =
     (\<lparr>ID = ''abc'', Content = ''hello'' @ [LF], Syntax = [], Upload = time_Unix 978307200 0,
       Expiration = time_Unix 0 0, Views = 0, Custom = []\<rparr>, None)
   \<and> find (\<lambda>r. row_id r = ''sha256-abc'')
        (table (run_pending demo_env (snd (Request demo_env ''abc'' False (demo_state demo_row)))))
      = Some (demo_row\<lparr>row_views := 1\<rparr>)"
proof -
  have sel: "db_fault demo_env (Select (sha256_hex demo_env ''abc'')) = None"
    by code_simp
  have f: "find (\<lambda>r. row_id r = sha256_hex demo_env ''abc'') (table (demo_state demo_row))
             = Some demo_row"
    by code_simp
  have k: "scrypt_Key demo_env ''abc''
             (time_Format demo_env (parsed_upload demo_env (row_upload demo_row)))
             = Inr ''abc/2001-01-01 00:00:00''"
    by code_simp
  have pu: "parsed_upload demo_env (row_upload demo_row) = time_Unix 978307200 0" by code_simp
  have d: "decrypt demo_env (row_content demo_row) ''abc/2001-01-01 00:00:00''
             = Inr (''hello'' @ [LF])"
    by code_simp
  have x: "row_expiration demo_row = Some ''1970-01-01 00:00:00''" by code_simp
  have px: "time_Parse demo_env ''1970-01-01 00:00:00'' = Inr (time_Unix 0 0)" by code_simp
  have v: "row_views demo_row = 0" by code_simp
  have q: "pending (demo_state demo_row) = []" by code_simp
  have h: "sha256_hex demo_env ''abc'' = ''sha256-abc''" by code_simp
  have s: "row_syntax demo_row = []" "row_custom demo_row = []" by code_simp+
  have upd: "db_fault demo_env (Update_views ''sha256-abc'') = None" by code_simp
  from Request_volatile_first_read [OF sel f k d x px v q, of False] sel h s upd pu
  show ?thesis by simp
qed

text \<open>
  Claim C1 as stated fails on \<^const>\<open>demo_row\<close>, a volatile row with the view count 0:
  the read returns the content and no error, no delete is among its statements, and
  the row is in the table when the read returns and after the pending update.
\<close>

theorem Request_volatile_first_read_counterexample:
  "row_expiration demo_row = Some ''1970-01-01 00:00:00''
   \<and> time_Parse demo_env ''1970-01-01 00:00:00'' = Inr (time_Unix 0 0)
   \<and> row_views demo_row = 0
   \<and> snd (fst (Request demo_env ''abc'' False (demo_state demo_row))) = None
   \<and> Content (fst (fst (Request demo_env ''abc'' False (demo_state demo_row)))) = ''hello'' @ [LF]
   \<and> db_ops (trace (snd (Request demo_env ''abc'' False (demo_state demo_row))))
       = [Select ''sha256-abc'', Update_views ''sha256-abc'']
   \<and> table (snd (Request demo_env ''abc'' False (demo_state demo_row))) = [demo_row]
   \<and> table (run_pending demo_env (snd (Request demo_env ''abc'' False (demo_state demo_row))))
       = [demo_row\<lparr>row_views := 1\<rparr>]"
  by code_simp

text \<open>
  Claim C2 fails on the code. The query and the update of a read are keyed by the
  digest of the identifier, but the delete of a volatile row (one with a fetched view
  count above 0) binds the identifier itself: the statements of the read are the
  query and the update for \<open>sha256_hex e id'\<close> and the delete for \<open>id'\<close>. Where the
  two differ, the row the read fetched is therefore still in the table afterwards.
\<close>

theorem Request_volatile_delete_raw_id:
  assumes "db_fault e (Select (sha256_hex e id')) = None"
    and "find (\<lambda>r. row_id r = sha256_hex e id') (table st) = Some r"
    and "scrypt_Key e id' (time_Format e (parsed_upload e (row_upload r))) = Inr key"
    and "decrypt e (row_content r) key = Inr data"
    and "row_expiration r = Some x" and "time_Parse e x = Inr t" and "t < time_Unix 0 1"
    and "row_views r > 0"
    and "pending st = []"
  shows "db_ops (trace (snd (Request e id' raw st))) =
           db_ops (trace st) @
             [Select (sha256_hex e id'), Update_views (sha256_hex e id'), Delete id']
       \<and> snd (fst (Request e id' raw st)) = None
       \<and> (sha256_hex e id' \<noteq> id' \<longrightarrow>
            find (\<lambda>r. row_id r = sha256_hex e id') (table (snd (Request e id' raw st))) = Some r
          \<and> find (\<lambda>r. row_id r = sha256_hex e id')
               (table (run_pending e (snd (Request e id' raw st)))) \<noteq> None)"
proof -
  have k: "row_id r = sha256_hex e id'" using assms(2) by (rule find_row_id)
  show ?thesis
    using assms k
    by (simp add: Request_defs Document_zero_def run_pending_def find_Update_views
                  find_Delete_other
             split: option.splits)
qed

text \<open>
  The read of the volatile row with the view count 1: the delete is sent for
  \<open>abc\<close>, the row is stored under \<open>sha256-abc\<close> and stays.
\<close>

theorem Request_volatile_delete_raw_id_witness:
  "sha256_hex demo_env ''abc'' = ''sha256-abc''
   \<and> db_ops (trace (snd (Request demo_env ''abc'' False
                            (demo_state (demo_row\<lparr>row_views := 1\<rparr>)))))
       = [Select ''sha256-abc'', Update_views ''sha256-abc'', Delete ''abc'']
   \<and> table (snd (Request demo_env ''abc'' False (demo_state (demo_row\<lparr>row_views := 1\<rparr>))))
       = [demo_row\<lparr>row_views := 1\<rparr>]
   \<and> table (run_pending demo_env
        (snd (Request demo_env ''abc'' False (demo_state (demo_row\<lparr>row_views := 1\<rparr>)))))
       = [demo_row\<lparr>row_views := 2\<rparr>]"
proof -
  let ?r = "demo_row\<lparr>row_views := 1\<rparr>"
  have sel: "db_fault demo_env (Select (sha256_hex demo_env ''abc'')) = None"
    by code_simp
  have f: "find (\<lambda>r. row_id r = sha256_hex demo_env ''abc'') (table (demo_state ?r)) = Some ?r"
    by code_simp
  have k: "scrypt_Key demo_env ''abc''
             (time_Format demo_env (parsed_upload demo_env (row_upload ?r)))
             = Inr ''abc/2001-01-01 00:00:00''"
    by code_simp
  have d: "decrypt demo_env (row_content ?r) ''abc/2001-01-01 00:00:00'' = Inr (''hello'' @ [LF])"
    by code_simp
  have x: "row_expiration ?r = Some ''1970-01-01 00:00:00''" by code_simp
  have px: "time_Parse demo_env ''1970-01-01 00:00:00'' = Inr (time_Unix 0 0)" by code_simp
  have lt: "time_Unix 0 0 < time_Unix 0 1" by code_simp
  have v: "row_views ?r > 0" by code_simp
  have q: "pending (demo_state ?r) = []" by code_simp
  have h: "sha256_hex demo_env ''abc'' = ''sha256-abc''" by code_simp
  have t1: "table (snd (Request demo_env ''abc'' False (demo_state ?r))) = [?r]"
    by code_simp
  have t2: "table (run_pending demo_env (snd (Request demo_env ''abc'' False (demo_state ?r))))
              = [demo_row\<lparr>row_views := 2\<rparr>]"
    by code_simp
  have tr: "trace (demo_state ?r) = []" by code_simp
  from Request_volatile_delete_raw_id [OF sel f k d x px lt v q, of False] h t1 t2 tr
  show ?thesis by simp
qed

text \<open>
  Claim C5 fails on the code in its second half. When the stored expiration is a
  string \<^verbatim>\<open>time.Parse\<close> rejects, the time it returns with the error is the zero
  time, which is before \<^verbatim>\<open>time.Unix(0, 1)\<close>: \<^verbatim>\<open>Request\<close> takes the branch of the
  volatile documents, where the error is not looked at, and returns the document with
  its content and no error.
\<close>

theorem Request_expiration_parse_failure:
  assumes "db_fault e (Select (sha256_hex e id')) = None"
    and "find (\<lambda>r. row_id r = sha256_hex e id') (table st) = Some r"
    and "scrypt_Key e id' (time_Format e (parsed_upload e (row_upload r))) = Inr key"
    and "decrypt e (row_content r) key = Inr data"
    and "row_expiration r = Some x" and "time_Parse e x = Inl m"
  shows "fst (Request e id' raw st) =
           (\<lparr>ID = id', Content = (if raw then StripHTML e data else data),
             Syntax = row_syntax r, Upload = parsed_upload e (row_upload r), Expiration = Time_zero,
             Views = row_views r, Custom = row_custom r\<rparr>, None)"
proof -
  obtain res st' where R: "Request e id' raw st = (res, st')"
    by (cases "Request e id' raw st") auto
  have "res = (\<lparr>ID = id', Content = (if raw then StripHTML e data else data),
             Syntax = row_syntax r, Upload = parsed_upload e (row_upload r), Expiration = Time_zero,
             Views = row_views r, Custom = row_custom r\<rparr>, None)"
    using R assms
    by (auto simp: Request_defs Document_zero_def Time_zero_def time_Unix_def
             split: option.splits sum.splits prod.splits if_splits)
  then show ?thesis by (simp add: R)
qed

text \<open>
  The read of a row whose expiration column holds \<open>next tuesday\<close>.
\<close>

theorem Request_expiration_parse_failure_witness:
  "row_expiration (demo_row\<lparr>row_expiration := Some ''next tuesday''\<rparr>) = Some ''next tuesday''
   \<and> time_Parse demo_env ''next tuesday'' = Inl ''parsing time: cannot parse''
   \<and> fst (Request demo_env ''abc'' False
             (demo_state (demo_row\<lparr>row_expiration := Some ''next tuesday''\<rparr>)))
      = (\<lparr>ID = ''abc'', Content = ''hello'' @ [LF], Syntax = [],
          Upload = time_Unix 978307200 0, Expiration = Time_zero, Views = 0, Custom = []\<rparr>,
         None)"
proof -
  let ?r = "demo_row\<lparr>row_expiration := Some ''next tuesday''\<rparr>"
  have sel: "db_fault demo_env (Select (sha256_hex demo_env ''abc'')) = None"
    by code_simp
  have f: "find (\<lambda>r. row_id r = sha256_hex demo_env ''abc'') (table (demo_state ?r)) = Some ?r"
    by code_simp
  have k: "scrypt_Key demo_env ''abc''
             (time_Format demo_env (parsed_upload demo_env (row_upload ?r)))
             = Inr ''abc/2001-01-01 00:00:00''"
    by code_simp
  have pu: "parsed_upload demo_env (row_upload ?r) = time_Unix 978307200 0" by code_simp
  have d: "decrypt demo_env (row_content ?r) ''abc/2001-01-01 00:00:00'' = Inr (''hello'' @ [LF])"
    by code_simp
  have x: "row_expiration ?r = Some ''next tuesday''" by code_simp
  have px: "time_Parse demo_env ''next tuesday'' = Inl ''parsing time: cannot parse''"
    by code_simp
  have s: "row_syntax ?r = []" "row_custom ?r = []" "row_views ?r = 0" by code_simp+
  from Request_expiration_parse_failure [OF sel f k d x px, of False] x px s pu
  show ?thesis by simp
qed

text \<open>
  The first half of claim C5 holds: a row whose expiration is parsed, is not before
  \<^verbatim>\<open>time.Unix(0, 1)\<close> and is before the clock never gives its content; the read
  returns the empty document with an error, which is \<open>the document has expired\<close>
  when the key derivation and the decryption succeeded.
\<close>

lemma Request_hard_expired:
  assumes "db_fault e (Select (sha256_hex e id')) = None"
    and "find (\<lambda>r. row_id r = sha256_hex e id') (table st) = Some r"
    and "row_expiration r = Some x" and "time_Parse e x = Inr t"
    and "\<not> t < time_Unix 0 1" and "t < Now e"
  shows "fst (fst (Request e id' raw st)) = Document_zero
       \<and> snd (fst (Request e id' raw st)) \<noteq> None
       \<and> (scrypt_Key e id' (time_Format e (parsed_upload e (row_upload r))) = Inr key
            \<and> decrypt e (row_content r) key = Inr data \<longrightarrow>
          snd (fst (Request e id' raw st)) = Some (ErrorsNew ''the document has expired''))"
proof -
  obtain res st' where R: "Request e id' raw st = (res, st')"
    by (cases "Request e id' raw st") auto
  have "fst res = Document_zero \<and> snd res \<noteq> None
       \<and> (scrypt_Key e id' (time_Format e (parsed_upload e (row_upload r))) = Inr key
            \<and> decrypt e (row_content r) key = Inr data \<longrightarrow>
          snd res = Some (ErrorsNew ''the document has expired''))"
    using R assms
    by (auto simp: Request_defs split: option.splits sum.splits prod.splits if_splits)
  then show ?thesis by (simp add: R)
qed

text \<open>
  The statements of any run of \<^verbatim>\<open>Request\<close>: the query, then possibly the update,
  both keyed by the digest, then possibly the delete, keyed by the identifier.
\<close>

lemma Request_db_ops:
  assumes "Request e id' raw st = (res, st')"
  shows "db_ops (trace st') = db_ops (trace st) @ [Select (sha256_hex e id')]
       \<or> db_ops (trace st') =
           db_ops (trace st) @ [Select (sha256_hex e id'), Update_views (sha256_hex e id')]
       \<or> db_ops (trace st') =
           db_ops (trace st) @
             [Select (sha256_hex e id'), Update_views (sha256_hex e id'), Delete id']"
  using assms
  by (auto simp: Request_defs split: option.splits sum.splits prod.splits if_splits)

end
